theory Spec2Isabelle
  imports Main
begin

section \<open>pyWikiRacer: one-hop path search over cached page links\<close>

text \<open>
  The development embeds \<^verbatim>\<open>wikiracing.py\<close> (class \<^verbatim>\<open>WikiRacer\<close>) and the
  \<^verbatim>\<open>WikiPage\<close> table of \<^verbatim>\<open>models.py\<close>.

  Strings. A Python \<^verbatim>\<open>str\<close> is modelled by its UTF-8 bytes (\<^typ>\<open>string\<close>). The
  only characters the code inspects are \<^verbatim>\<open>/\<close> and \<^verbatim>\<open>:\<close>; both are ASCII, and no
  byte of a multi-byte UTF-8 sequence equals an ASCII byte, so "every character is a red
  flag" and "no character is a red flag" mean the same over bytes as over code points.
  Equality of titles is equality of their encodings.

  Leading underscores are not allowed in names here: \<^verbatim>\<open>_validate_page\<close> is
  \<open>validate_page\<close>, \<^verbatim>\<open>_get_links\<close> is \<open>get_links\<close>, and so on.
\<close>

subsection \<open>Constants and exceptions\<close>

definition LINKS_PER_PAGE :: nat where
  "LINKS_PER_PAGE = 200"

definition TITLE_RED_FLAGS :: "char list" where
  "TITLE_RED_FLAGS = [CHR ''/'', CHR '':'']"

text \<open>\<^verbatim>\<open>title = Column(String(150))\<close> of \<^verbatim>\<open>models.py\<close>: the column holds at most 150
  characters.\<close>

definition TITLE_MAX_LENGTH :: nat where
  "TITLE_MAX_LENGTH = 150"

text \<open>
  What \<^verbatim>\<open>session.get(...).json()\<close> can raise: a transport failure of the request, or
  a body that is not JSON.
\<close>

datatype request_error = ConnectionError | JSONDecodeError

text \<open>
  The exceptions that can leave a method. \<open>InvalidPageException\<close> carries
  \<^verbatim>\<open>page_title\<close>, \<open>KeyError\<close> the missing key, \<open>IndexError\<close> is the \<^verbatim>\<open>[0]\<close>
  on an empty list, \<open>RequestException\<close> is an exception of the \<^verbatim>\<open>requests\<close> library,
  and \<open>DataError\<close> is the database refusing a value that is too long for its column.
\<close>

datatype py_error =
    InvalidPageException string
  | KeyError string
  | IndexError
  | RequestException request_error
  | DataError

text \<open>\<^verbatim>\<open>str(e)\<close> of an \<open>InvalidPageException\<close>: its \<^verbatim>\<open>message\<close>, where
  \<^verbatim>\<open>page_title or 'this term'\<close> replaces an empty title.\<close>

definition invalid_page_message :: "string \<Rightarrow> string" where
  "invalid_page_message page_title =
     ''Can't parse wikipedia page '' @ (if page_title = [] then ''this term'' else page_title) @ ''.''"

subsection \<open>The remote query service\<close>

text \<open>
  The decoded JSON of a \<^verbatim>\<open>prop=links\<close> answer, at the members the code reads. A
  member that may be absent is an \<open>option\<close>: reading an absent member is Python's
  \<^verbatim>\<open>KeyError\<close>. \<open>lq_pages\<close> holds the values of the \<^verbatim>\<open>pages\<close> object in key order
  (the code only takes \<^verbatim>\<open>[links[key] for key in list(links.keys())]\<close>). Members have
  the types of the service's schema: objects are objects, lists are lists, titles are
  strings.
\<close>

datatype link_json = LinkJson (lj_title: "string option")

datatype page_json = PageJson (pj_links: "link_json list option")

datatype links_query_json = LinksQuery (lq_pages: "page_json list option")

datatype links_response = LinksResponse (lr_query: "links_query_json option")

text \<open>The decoded JSON of a \<^verbatim>\<open>list=backlinks\<close> answer.\<close>

datatype backlink_json = BacklinkJson (bj_title: "string option")

datatype backlinks_query_json = BacklinksQuery (bq_backlinks: "backlink_json list option")

datatype backlinks_response = BacklinksResponse (br_query: "backlinks_query_json option")

text \<open>
  \<^verbatim>\<open>session.get(url=API_URL, params=params).json()\<close>: the service is a function of
  the request (the result-count parameter and the title; the other parameters are
  constants of the code). It either raises or yields the decoded body. The corpus is taken
  not to change while a search runs, nor between the two searches of a repeated call.
\<close>

record remote =
  links_query :: "nat \<Rightarrow> string \<Rightarrow> request_error + links_response"
  backlinks_query :: "nat \<Rightarrow> string \<Rightarrow> request_error + backlinks_response"

subsection \<open>Link retrieval\<close>

definition red_flag :: "char \<Rightarrow> bool" where
  "red_flag c = (c \<in> set TITLE_RED_FLAGS)"

text \<open>\<^verbatim>\<open>[entry['links'] for entry in results]\<close>: the first entry without the member
  raises.\<close>

fun unpack_links :: "page_json list \<Rightarrow> py_error + link_json list list" where
  "unpack_links [] = Inr []"
| "unpack_links (entry # results) =
     (case pj_links entry of
        None \<Rightarrow> Inl (KeyError ''links'')
      | Some l \<Rightarrow>
          (case unpack_links results of
             Inl e \<Rightarrow> Inl e
           | Inr ls \<Rightarrow> Inr (l # ls)))"

text \<open>\<^verbatim>\<open>[entry['title'] for entry in links if all([char not in TITLE_RED_FLAGS for
  char in entry['title']])]\<close>.\<close>

fun link_titles :: "link_json list \<Rightarrow> py_error + string list" where
  "link_titles [] = Inr []"
| "link_titles (entry # links) =
     (case lj_title entry of
        None \<Rightarrow> Inl (KeyError ''title'')
      | Some t \<Rightarrow>
          (case link_titles links of
             Inl e \<Rightarrow> Inl e
           | Inr ts \<Rightarrow> Inr (if list_all (\<lambda>c. \<not> red_flag c) t then t # ts else ts)))"

text \<open>\<^verbatim>\<open>_get_links(page)\<close>. Only the \<^verbatim>\<open>[...][0]\<close> line is inside
  \<^verbatim>\<open>try ... except KeyError: return []\<close>.\<close>

definition get_links :: "remote \<Rightarrow> string \<Rightarrow> py_error + string list" where
  "get_links r page =
     (case links_query r LINKS_PER_PAGE page of
        Inl e \<Rightarrow> Inl (RequestException e)
      | Inr response \<Rightarrow>
          (case lr_query response of
             None \<Rightarrow> Inl (KeyError ''query'')
           | Some q \<Rightarrow>
               (case lq_pages q of
                  None \<Rightarrow> Inl (KeyError ''pages'')
                | Some results \<Rightarrow>
                    (case unpack_links results of
                       Inl (KeyError k) \<Rightarrow> Inr []
                     | Inl e \<Rightarrow> Inl e
                     | Inr [] \<Rightarrow> Inl IndexError
                     | Inr (links # rest) \<Rightarrow> link_titles links))))"

text \<open>\<^verbatim>\<open>_get_backlinks(page)\<close>; \<^verbatim>\<open>entry.get('title')\<close> is \<^verbatim>\<open>None\<close> for an entry
  without the member.\<close>

definition get_backlinks :: "remote \<Rightarrow> string \<Rightarrow> py_error + string option list" where
  "get_backlinks r page =
     (case backlinks_query r LINKS_PER_PAGE page of
        Inl e \<Rightarrow> Inl (RequestException e)
      | Inr response \<Rightarrow>
          (case br_query response of
             None \<Rightarrow> Inl (KeyError ''query'')
           | Some q \<Rightarrow>
               (case bq_backlinks q of
                  None \<Rightarrow> Inl (KeyError ''backlinks'')
                | Some entries \<Rightarrow> Inr (map bj_title entries))))"

subsection \<open>Page validation\<close>

text \<open>\<^verbatim>\<open>not all([char in TITLE_RED_FLAGS for char in title])\<close>.\<close>

definition valid_title :: "string \<Rightarrow> bool" where
  "valid_title title = (\<not> list_all red_flag title)"

text \<open>\<^verbatim>\<open>_validate_page(title)\<close>: the links are fetched before the test.\<close>

definition validate_page :: "remote \<Rightarrow> string \<Rightarrow> py_error + (bool \<times> string list)" where
  "validate_page r title =
     (case get_links r title of
        Inl e \<Rightarrow> Inl e
      | Inr page_links \<Rightarrow>
          if \<not> valid_title title \<or> length page_links = 0
          then Inl (InvalidPageException title)
          else Inr (True, page_links))"

subsection \<open>The page store\<close>

text \<open>
  A row of the \<^verbatim>\<open>wikipage\<close> table. The surrogate key \<^verbatim>\<open>id\<close> is assigned by the
  database and \<^verbatim>\<open>level_two_children\<close> is never read or written by the search; neither is
  part of the row here. The table is the list of its rows in insertion order, and
  \<^verbatim>\<open>session.query(WikiPage).filter_by(title=link).first()\<close> is the first row with that
  title.

  The \<^verbatim>\<open>title\<close> column is \<^verbatim>\<open>String(150)\<close>: the database counts characters, and the
  \<^verbatim>\<open>INSERT\<close> that \<^verbatim>\<open>session.commit()\<close> sends for a longer title fails with
  \<open>DataError\<close>, which nothing in \<^verbatim>\<open>find_path\<close> catches. The characters of a UTF-8
  string are its bytes other than continuation bytes (\<^verbatim>\<open>0x80\<close> to \<^verbatim>\<open>0xBF\<close>). Titles are
  taken as the service emits them, normalised: without a trailing space and without a NUL
  character. The \<^verbatim>\<open>links\<close> and \<^verbatim>\<open>backlinks\<close> columns are arrays of unbounded strings.
\<close>

definition utf8_continuation :: "char \<Rightarrow> bool" where
  "utf8_continuation c = (128 \<le> (of_char c :: nat) \<and> (of_char c :: nat) < 192)"

definition char_length :: "string \<Rightarrow> nat" where
  "char_length t = length (filter (\<lambda>c. \<not> utf8_continuation c) t)"

record WikiPage =
  title :: string
  links :: "string list"
  backlinks :: "string option list"

type_synonym store = "WikiPage list"

definition db_lookup :: "store \<Rightarrow> string \<Rightarrow> WikiPage option" where
  "db_lookup session link = find (\<lambda>p. title p = link) session"

text \<open>\<^verbatim>\<open>_create_link_obj(title, links, session)\<close>: the backlinks are fetched while the
  row is built; when that raises, nothing is added. Then \<^verbatim>\<open>session.add\<close> and
  \<^verbatim>\<open>session.commit\<close>: the row is stored unless its title is too long for the column.\<close>

definition create_link_obj ::
  "remote \<Rightarrow> string \<Rightarrow> string list \<Rightarrow> store \<Rightarrow> store \<times> (py_error + WikiPage)" where
  "create_link_obj r t ls session =
     (case get_backlinks r t of
        Inl e \<Rightarrow> (session, Inl e)
      | Inr bl \<Rightarrow>
          (let page_obj = \<lparr>title = t, links = ls, backlinks = bl\<rparr>
           in if TITLE_MAX_LENGTH < char_length t then (session, Inl DataError)
              else (session @ [page_obj], Inr page_obj)))"

subsection \<open>The search\<close>

text \<open>\<^verbatim>\<open>path.insert(1, page_title)\<close> on a Python list.\<close>

definition list_insert1 :: "'a \<Rightarrow> 'a list \<Rightarrow> 'a list" where
  "list_insert1 x xs = take 1 xs @ [x] @ drop 1 xs"

text \<open>\<^verbatim>\<open>_page_leads_to_term\<close>: the flag and the (possibly updated) path.\<close>

definition page_leads_to_term ::
  "string \<Rightarrow> string list \<Rightarrow> string \<Rightarrow> string list \<Rightarrow> bool \<times> string list" where
  "page_leads_to_term page_title ls term path =
     (if term \<in> set ls then (True, list_insert1 page_title path) else (False, path))"

text \<open>
  The \<^verbatim>\<open>for link in start_page_links\<close> loop of \<^verbatim>\<open>find_path\<close>. The result is the
  store as committed so far together with either the exception that left the loop or
  \<open>(path_found, path)\<close> at its end. Only \<open>InvalidPageException\<close> is caught
  (\<^verbatim>\<open>continue\<close>).
\<close>

fun search_links ::
  "remote \<Rightarrow> string \<Rightarrow> string list \<Rightarrow> store \<Rightarrow> string list
     \<Rightarrow> store \<times> (py_error + (bool \<times> string list))" where
  "search_links r finish [] session path = (session, Inr (False, path))"
| "search_links r finish (link # rest) session path =
     (case db_lookup session link of
        Some page_db_lookup \<Rightarrow>
          (case page_leads_to_term link (links page_db_lookup) finish path of
             (path_found, path') \<Rightarrow>
               if path_found then (session, Inr (True, path'))
               else search_links r finish rest session path')
      | None \<Rightarrow>
          (case validate_page r link of
             Inl (InvalidPageException t) \<Rightarrow> search_links r finish rest session path
           | Inl e \<Rightarrow> (session, Inl e)
           | Inr (current_page, page_links) \<Rightarrow>
               (case create_link_obj r link page_links session of
                  (session', Inl e) \<Rightarrow> (session', Inl e)
                | (session', Inr page_obj) \<Rightarrow>
                    (case page_leads_to_term link page_links finish path of
                       (path_found, path') \<Rightarrow>
                         if path_found then (session', Inr (True, path'))
                         else search_links r finish rest session' path'))))"

text \<open>What \<^verbatim>\<open>find_path\<close> returns: the message string of the handled exception, or a
  list of titles. A Python \<^verbatim>\<open>str\<close> is never equal to a \<^verbatim>\<open>list\<close>.\<close>

datatype outcome = Str string | List "string list"

text \<open>Modelled from the spec: the decorator \<^verbatim>\<open>time_elapsed\<close> (module
  \<^verbatim>\<open>decorators\<close>) is timing instrumentation around the top-level call; it hands the
  result of the wrapped call through.\<close>

definition time_elapsed :: "'a \<Rightarrow> 'a" where
  "time_elapsed x = x"

definition find_path ::
  "remote \<Rightarrow> store \<Rightarrow> string \<Rightarrow> string \<Rightarrow> store \<times> (py_error + outcome)" where
  "find_path r session start finish = time_elapsed
     (case validate_page r start of
        Inl (InvalidPageException t) \<Rightarrow> (session, Inr (Str (invalid_page_message t)))
      | Inl e \<Rightarrow> (session, Inl e)
      | Inr (start_page, start_page_links) \<Rightarrow>
          (case validate_page r finish of
             Inl (InvalidPageException t) \<Rightarrow> (session, Inr (Str (invalid_page_message t)))
           | Inl e \<Rightarrow> (session, Inl e)
           | Inr final_page \<Rightarrow>
               (case search_links r finish start_page_links session [start, finish] of
                  (session', Inl e) \<Rightarrow> (session', Inl e)
                | (session', Inr (path_found, path)) \<Rightarrow>
                    (session', Inr (List (if path_found then path else []))))))"

subsection \<open>The link set of a candidate\<close>

text \<open>
  What one round of the loop uses as the links of a candidate \<open>link\<close> when the store is
  \<open>session\<close>: the cached links on a store hit; otherwise the links that
  \<open>validate_page\<close> returns, once the backlinks for the new row have been fetched and
  the row has been stored. \<open>Inr None\<close> is a candidate rejected with
  \<open>InvalidPageException\<close> (it is skipped); \<open>Inl e\<close> is the exception that leaves the
  loop at this candidate: one of the link fetch, of the backlink fetch, or of the insert.
\<close>

definition candidate_links :: "remote \<Rightarrow> store \<Rightarrow> string \<Rightarrow> py_error + string list option" where
  "candidate_links r session link =
     (case db_lookup session link of
        Some page \<Rightarrow> Inr (Some (links page))
      | None \<Rightarrow>
          (case validate_page r link of
             Inl (InvalidPageException t) \<Rightarrow> Inr None
           | Inl e \<Rightarrow> Inl e
           | Inr (current_page, page_links) \<Rightarrow>
               (case get_backlinks r link of
                  Inl e \<Rightarrow> Inl e
                | Inr bl \<Rightarrow>
                    if TITLE_MAX_LENGTH < char_length link then Inl DataError
                    else Inr (Some page_links))))"



text \<open>The store after the round for \<open>link\<close>: a row is added exactly when the
  candidate is not cached, passes validation, its backlinks are fetched and its title
  fits the column.\<close>

definition store_after :: "remote \<Rightarrow> store \<Rightarrow> string \<Rightarrow> store" where
  "store_after r session link =
     (case db_lookup session link of
        Some page \<Rightarrow> session
      | None \<Rightarrow>
          (case validate_page r link of
             Inl e \<Rightarrow> session
           | Inr (current_page, page_links) \<Rightarrow> fst (create_link_obj r link page_links session)))"

text \<open>The rows that the search may add: the title passed validation with these links,
  the backlinks are the fetched ones, and the title fits the column.\<close>

definition inserted_row :: "remote \<Rightarrow> WikiPage \<Rightarrow> bool" where
  "inserted_row r p =
     (validate_page r (title p) = Inr (True, links p) \<and>
      get_backlinks r (title p) = Inr (backlinks p) \<and>
      char_length (title p) \<le> TITLE_MAX_LENGTH)"

text \<open>The invariant of the store in the spec's words: a non-empty links list and a title
  that does not consist solely of separator characters.\<close>

definition valid_record :: "WikiPage \<Rightarrow> bool" where
  "valid_record p = (links p \<noteq> [] \<and> \<not> list_all red_flag (title p))"

subsection \<open>The remote source as the spec describes it\<close>

text \<open>
  Modelled from the spec: the remote link source (sections 4.2 and 6) is an external
  service, "a query-based read-only service returning, for a given title, its outbound
  links and the pages that link to it, each optionally capped by a result-count
  parameter". Its answer for a page with the outbound links \<open>all_links\<close> is one page
  entry whose \<^verbatim>\<open>links\<close> member lists the first \<open>limit\<close> of them; a page without links
  (or a page that does not exist) has an entry without the member.
\<close>

definition remote_links_answer :: "nat \<Rightarrow> string list \<Rightarrow> links_response" where
  "remote_links_answer limit all_links =
     LinksResponse (Some (LinksQuery (Some
       [PageJson (if all_links = [] then None
                  else Some (map (\<lambda>t. LinkJson (Some t)) (take limit all_links)))])))"

definition remote_backlinks_answer :: "nat \<Rightarrow> string list \<Rightarrow> backlinks_response" where
  "remote_backlinks_answer limit all_backlinks =
     BacklinksResponse (Some (BacklinksQuery (Some
       (map (\<lambda>t. BacklinkJson (Some t)) (take limit all_backlinks)))))"

definition corpus_remote :: "(string \<Rightarrow> string list) \<Rightarrow> (string \<Rightarrow> string list) \<Rightarrow> remote" where
  "corpus_remote out back =
     \<lparr>links_query = (\<lambda>limit t. Inr (remote_links_answer limit (out t))),
      backlinks_query = (\<lambda>limit t. Inr (remote_backlinks_answer limit (back t)))\<rparr>"

subsection \<open>A small corpus for the concrete runs\<close>

text \<open>A title of 151 characters.\<close>

definition long_title :: string where
  "long_title = replicate 151 CHR ''a''"

definition ex_links :: "string \<Rightarrow> string list" where
  "ex_links t =
     (if t = ''S'' then [''A'', ''N'', ''B'', ''C'']
      else if t = ''T'' then [''C'']
      else if t = ''L'' then [long_title, ''C'']
      else if t = long_title then [''X'']
      else if t = ''A'' then [''X'']
      else if t = ''B'' then [''F'', ''Y'']
      else if t = ''C'' then [''F'']
      else if t = ''F'' then [''Z'']
      else if t = ''Z'' then [''Q'']
      else if t = ''a:b'' then [''A'']
      else if t = '':/'' then [''A'']
      else if t = [] then [''F'']
      else [])"

definition ex_backlinks :: "string \<Rightarrow> string list" where
  "ex_backlinks t = (if t = ''F'' then [''B'', ''C''] else [''S''])"

definition ex_remote :: remote where
  "ex_remote = corpus_remote ex_links ex_backlinks"


text \<open>A page whose 201 outbound links start with one in a namespace.\<close>

definition big_page_links :: "string list" where
  "big_page_links = ''Category:X'' # replicate 200 ''A''"

definition big_remote :: remote where
  "big_remote = corpus_remote (\<lambda>t. big_page_links) (\<lambda>t. [])"

text \<open>An answer whose first page entry lists a link and whose second entry has no
  \<^verbatim>\<open>links\<close> member, and the answer for a page that lists no link.\<close>

definition broken_remote :: remote where
  "broken_remote =
     \<lparr>links_query = (\<lambda>limit t. Inr (LinksResponse (Some (LinksQuery (Some
         [PageJson (Some [LinkJson (Some ''A'')]), PageJson None]))))),
      backlinks_query = (\<lambda>limit t. Inr (remote_backlinks_answer limit []))\<rparr>"

definition zero_links_remote :: remote where
  "zero_links_remote =
     \<lparr>links_query = (\<lambda>limit t. Inr (LinksResponse (Some (LinksQuery (Some
         [PageJson (Some [])]))))),
      backlinks_query = (\<lambda>limit t. Inr (remote_backlinks_answer limit []))\<rparr>"

text \<open>A service whose answers cannot be decoded or do not arrive.\<close>

definition down_remote :: remote where
  "down_remote =
     \<lparr>links_query = (\<lambda>limit t. Inl JSONDecodeError),
      backlinks_query = (\<lambda>limit t. Inl ConnectionError)\<rparr>"

text \<open>The rows that the search adds in the small corpus.\<close>

definition row_A :: WikiPage where
  "row_A = \<lparr>title = ''A'', links = [''X''], backlinks = [Some ''S'']\<rparr>"

definition row_B :: WikiPage where
  "row_B = \<lparr>title = ''B'', links = [''F'', ''Y''], backlinks = [Some ''S'']\<rparr>"

section \<open>Link retrieval and validation\<close>

lemma unpack_links_error: "unpack_links rs = Inl e \<Longrightarrow> e = KeyError ''links''"
  by (induction rs) (auto split: option.splits sum.splits)

lemma unpack_links_missing:
  "list_ex (\<lambda>e. pj_links e = None) rs \<Longrightarrow> unpack_links rs = Inl (KeyError ''links'')"
  by (induction rs) (auto split: option.splits sum.splits dest: unpack_links_error)

lemma link_titles_error: "link_titles ls = Inl e \<Longrightarrow> e = KeyError ''title''"
  by (induction ls) (auto split: option.splits sum.splits)

lemma link_titles_present:
  "link_titles (map (\<lambda>t. LinkJson (Some t)) ts) = Inr (filter (list_all (\<lambda>c. \<not> red_flag c)) ts)"
  by (induction ts) auto

lemma get_links_not_invalid: "get_links r page \<noteq> Inl (InvalidPageException x)"
  by (auto simp: get_links_def split: sum.splits option.splits py_error.splits list.splits
      dest: unpack_links_error link_titles_error)

lemma validate_page_Inr:
  "validate_page r t = Inr x \<Longrightarrow>
     \<exists>ls. x = (True, ls) \<and> get_links r t = Inr ls \<and> ls \<noteq> [] \<and> \<not> list_all red_flag t"
  by (auto simp: validate_page_def valid_title_def split: sum.splits if_splits)

lemma validate_page_invalid:
  "validate_page r t = Inl (InvalidPageException x) \<Longrightarrow> x = t"
  using get_links_not_invalid [of r t]
  by (auto simp: validate_page_def split: sum.splits if_splits)

lemma get_links_corpus:
  "get_links (corpus_remote out back) t =
     Inr (filter (list_all (\<lambda>c. \<not> red_flag c)) (take LINKS_PER_PAGE (out t)))"
  by (simp add: get_links_def corpus_remote_def remote_links_answer_def link_titles_present)

lemma get_backlinks_corpus:
  "get_backlinks (corpus_remote out back) t = Inr (map Some (take LINKS_PER_PAGE (back t)))"
  by (simp add: get_backlinks_def corpus_remote_def remote_backlinks_answer_def comp_def)


section \<open>The store and the loop\<close>

lemma db_lookup_append:
  "db_lookup (s @ new) x = (case db_lookup s x of Some p \<Rightarrow> Some p | None \<Rightarrow> db_lookup new x)"
  unfolding db_lookup_def by (induction s) auto

lemma db_lookup_title: "db_lookup s x = Some p \<Longrightarrow> title p = x \<and> p \<in> set s"
  unfolding db_lookup_def by (induction s) (auto split: if_splits)

lemma db_lookup_None: "db_lookup s x = None \<longleftrightarrow> (\<forall>p\<in>set s. title p \<noteq> x)"
  unfolding db_lookup_def by (induction s) auto

text \<open>One round of the loop, in terms of the candidate's link set.\<close>

lemma search_links_step:
  "search_links r finish (link # rest) s path =
     (case candidate_links r s link of
        Inl e \<Rightarrow> (s, Inl e)
      | Inr None \<Rightarrow> search_links r finish rest s path
      | Inr (Some ls) \<Rightarrow>
          if finish \<in> set ls then (store_after r s link, Inr (True, list_insert1 link path))
          else search_links r finish rest (store_after r s link) path)"
  by (auto simp: candidate_links_def store_after_def page_leads_to_term_def create_link_obj_def
      Let_def split: option.splits sum.splits py_error.splits prod.splits)

declare search_links.simps(2) [simp del]

lemma store_after_hit: "db_lookup s link \<noteq> None \<Longrightarrow> store_after r s link = s"
  by (auto simp: store_after_def)

lemma store_after_new:
  assumes "candidate_links r s link = Inr (Some ls)"
  shows "\<exists>new. store_after r s link = s @ new \<and> list_all (inserted_row r) new \<and>
       (\<forall>p\<in>set new. title p = link) \<and> db_lookup (s @ new) link \<noteq> None"
proof (cases "db_lookup s link")
  case (Some p)
  then have "store_after r s link = s @ []" by (simp add: store_after_def)
  with Some show ?thesis by (intro exI [of _ "[]"]) simp
next
  case None
  with assms obtain bl where v: "validate_page r link = Inr (True, ls)"
    and b: "get_backlinks r link = Inr bl"
    and l: "char_length link \<le> TITLE_MAX_LENGTH"
    by (auto simp: candidate_links_def split: sum.splits py_error.splits if_splits
        dest!: validate_page_Inr)
  let ?row = "\<lparr>title = link, links = ls, backlinks = bl\<rparr>"
  from None v b l have "store_after r s link = s @ [?row]"
    by (simp add: store_after_def create_link_obj_def Let_def)
  moreover from v b l have "inserted_row r ?row" by (simp add: inserted_row_def)
  moreover from None have "db_lookup (s @ [?row]) link \<noteq> None"
    by (simp add: db_lookup_append) (simp add: db_lookup_def)
  ultimately show ?thesis by (intro exI [of _ "[?row]"]) simp
qed

lemma candidate_links_stable:
  "list_all (inserted_row r) new \<Longrightarrow> candidate_links r (s @ new) x = candidate_links r s x"
proof (cases "db_lookup s x")
  case (Some p)
  then show ?thesis by (simp add: candidate_links_def db_lookup_append)
next
  case None
  assume rows: "list_all (inserted_row r) new"
  show ?thesis
  proof (cases "db_lookup new x")
    case None2: None
    with None show ?thesis by (simp add: candidate_links_def db_lookup_append)
  next
    case (Some p)
    then have "title p = x" "p \<in> set new" using db_lookup_title by blast+
    with rows have "inserted_row r p" by (simp add: list_all_iff)
    with \<open>title p = x\<close> have "validate_page r x = Inr (True, links p)"
      "get_backlinks r x = Inr (backlinks p)" "\<not> TITLE_MAX_LENGTH < char_length x"
      by (auto simp: inserted_row_def)
    with None Some show ?thesis by (simp add: candidate_links_def db_lookup_append)
  qed
qed

lemma search_links_store:
  "\<exists>new. fst (search_links r finish ls s path) = s @ new \<and> list_all (inserted_row r) new \<and>
     (\<forall>p\<in>set new. title p \<in> set ls)"
proof (induction ls arbitrary: s)
  case Nil
  show ?case by simp
next
  case (Cons link rest)
  show ?case
  proof (cases "candidate_links r s link")
    case (Inl e)
    then show ?thesis by (simp add: search_links_step)
  next
    case (Inr o1)
    show ?thesis
    proof (cases o1)
      case None
      with Inr Cons.IH [of s] show ?thesis by (auto simp: search_links_step)
    next
      case (Some lks)
      with Inr obtain new where new: "store_after r s link = s @ new"
        "list_all (inserted_row r) new" "\<forall>p\<in>set new. title p = link"
        using store_after_new by blast
      show ?thesis
      proof (cases "finish \<in> set lks")
        case True
        with Inr Some new show ?thesis by (auto simp: search_links_step)
      next
        case False
        from Cons.IH [of "s @ new"] obtain new2 where
          "fst (search_links r finish rest (s @ new) path) = (s @ new) @ new2"
          "list_all (inserted_row r) new2" "\<forall>p\<in>set new2. title p \<in> set rest" by blast
        with Inr Some new False show ?thesis
          by (auto simp: search_links_step intro!: exI [of _ "new @ new2"])
      qed
    qed
  qed
qed




lemma search_links_again:
  "search_links r finish ls s path = (s', res) \<Longrightarrow> search_links r finish ls s' path = (s', res)"
proof (induction ls arbitrary: s)
  case Nil
  then show ?case by auto
next
  case (Cons link rest)
  from search_links_store [of r finish "link # rest" s path] Cons.prems
  obtain new where s': "s' = s @ new" and rows: "list_all (inserted_row r) new"
    by auto
  have same: "candidate_links r s' link = candidate_links r s link"
    using rows by (simp add: s' candidate_links_stable)
  show ?case
  proof (cases "candidate_links r s link")
    case (Inl e)
    with Cons.prems same show ?thesis by (auto simp: search_links_step)
  next
    case (Inr o1)
    show ?thesis
    proof (cases o1)
      case None
      with Inr Cons.prems have "search_links r finish rest s path = (s', res)"
        by (simp add: search_links_step)
      from Cons.IH [OF this] Inr None same show ?thesis by (simp add: search_links_step)
    next
      case (Some lks)
      from Inr Some obtain new1 where new1: "store_after r s link = s @ new1"
        "db_lookup (s @ new1) link \<noteq> None"
        using store_after_new by blast
      show ?thesis
      proof (cases "finish \<in> set lks")
        case True
        with Inr Some Cons.prems have s1: "s' = store_after r s link"
          and res: "res = Inr (True, list_insert1 link path)"
          by (auto simp: search_links_step)
        from s1 new1 have "store_after r s' link = s'" by (simp add: store_after_hit)
        with Inr Some True same res show ?thesis by (simp add: search_links_step)
      next
        case False
        with Inr Some Cons.prems have
          run: "search_links r finish rest (store_after r s link) path = (s', res)"
          by (simp add: search_links_step)
        from search_links_store [of r finish rest "store_after r s link" path] run
        obtain new2 where "s' = store_after r s link @ new2" by auto
        with new1 have "db_lookup s' link \<noteq> None"
          by (auto simp: db_lookup_append split: option.splits)
        then have "store_after r s' link = s'" by (simp add: store_after_hit)
        with Cons.IH [OF run] Inr Some False same show ?thesis
          by (simp add: search_links_step)
      qed
    qed
  qed
qed






section \<open>The top-level call\<close>

lemma inserted_row_valid: "inserted_row r p \<Longrightarrow> valid_record p"
  by (auto simp: inserted_row_def valid_record_def dest!: validate_page_Inr)

lemma find_path_valid:
  "validate_page r start = Inr (cp, sl) \<Longrightarrow> validate_page r finish = Inr y \<Longrightarrow>
     find_path r s start finish =
       (case search_links r finish sl s [start, finish] of
          (s', Inl e) \<Rightarrow> (s', Inl e)
        | (s', Inr (path_found, path)) \<Rightarrow> (s', Inr (List (if path_found then path else []))))"
  by (simp add: find_path_def time_elapsed_def)

lemma find_path_fst:
  "validate_page r start = Inr (cp, sl) \<Longrightarrow> validate_page r finish = Inr y \<Longrightarrow>
     fst (find_path r s start finish) = fst (search_links r finish sl s [start, finish])"
  by (auto simp: find_path_valid split: prod.splits sum.splits)

lemma find_path_store:
  "\<exists>new. fst (find_path r s start finish) = s @ new \<and> list_all (inserted_row r) new"
proof (cases "\<exists>cp sl y. validate_page r start = Inr (cp, sl) \<and> validate_page r finish = Inr y")
  case True
  then obtain cp sl y where v: "validate_page r start = Inr (cp, sl)" "validate_page r finish = Inr y"
    by blast
  from search_links_store [of r finish sl s "[start, finish]"] show ?thesis
    by (auto simp: find_path_fst [OF v])
next
  case False
  then have "fst (find_path r s start finish) = s"
    by (auto simp: find_path_def time_elapsed_def split: sum.splits py_error.splits prod.splits)
  then show ?thesis by (intro exI [of _ "[]"]) simp
qed


section \<open>Page validation (claims C4 and C10)\<close>

text \<open>
  Claim C4. \<open>validate_page\<close> fails with \<open>InvalidPageException\<close> for the title exactly
  when a link list was fetched for it and either every character of the title is a
  separator character or the fetched list is empty; when a list was fetched and neither
  holds, it returns the fetched links. So a title made of separators only is rejected
  whatever was fetched, and a title that merely contains a separator is accepted when its
  link list is not empty. An exception of the fetch itself is passed on unchanged.
\<close>

theorem validate_page_iff:
  "(validate_page r t = Inl (InvalidPageException t)) =
     (\<exists>ls. get_links r t = Inr ls \<and> (list_all red_flag t \<or> ls = []))
   \<and> (\<forall>ls. get_links r t = Inr ls \<and> \<not> list_all red_flag t \<and> ls \<noteq> [] \<longrightarrow>
         validate_page r t = Inr (True, ls))
   \<and> (\<forall>e. get_links r t = Inl e \<longrightarrow> validate_page r t = Inl e)"
  using get_links_not_invalid [of r t]
  by (auto simp: validate_page_def valid_title_def split: sum.splits if_splits)

text \<open>In the small corpus: \<^verbatim>\<open>:/\<close> has a link but only separator characters, \<^verbatim>\<open>N\<close>
  has no links, \<^verbatim>\<open>a:b\<close> contains a separator and has a link.\<close>

theorem validate_page_iff_witness:
  "validate_page ex_remote '':/'' = Inl (InvalidPageException '':/'')
   \<and> validate_page ex_remote ''N'' = Inl (InvalidPageException ''N'')
   \<and> validate_page ex_remote ''a:b'' = Inr (True, [''A''])"
proof -
  have 1: "get_links ex_remote '':/'' = Inr [''A''] \<and> list_all red_flag '':/''" by code_simp
  have 2: "get_links ex_remote ''N'' = Inr []" by code_simp
  have 3: "get_links ex_remote ''a:b'' = Inr [''A''] \<and> \<not> list_all red_flag ''a:b''" by code_simp
  from 1 2 3 validate_page_iff [of ex_remote "'':/''"] validate_page_iff [of ex_remote "''N''"]
    validate_page_iff [of ex_remote "''a:b''"]
  show ?thesis by simp
qed

text \<open>
  Claim C10. For the empty title, whatever link list the service returns, validation fails
  with \<open>InvalidPageException\<close>: \<^verbatim>\<open>all([])\<close> is true. Validation of the empty title
  never succeeds.
\<close>

theorem validate_page_empty_title:
  "(\<forall>ls. get_links r [] = Inr ls \<longrightarrow> validate_page r [] = Inl (InvalidPageException []))
   \<and> (\<forall>x. validate_page r [] \<noteq> Inr x)"
  by (auto simp: validate_page_def valid_title_def split: sum.splits)

text \<open>In the small corpus the empty title has a link, and is rejected.\<close>

theorem validate_page_empty_title_witness:
  "get_links ex_remote [] = Inr [''F''] \<and> validate_page ex_remote [] = Inl (InvalidPageException [])"
proof -
  have 1: "get_links ex_remote [] = Inr [''F'']" by code_simp
  with validate_page_empty_title [of ex_remote] show ?thesis by blast
qed

section \<open>Link retrieval (claims C5 and C6)\<close>

text \<open>
  Claim C5 does not hold as stated: an answer that is not what the code expects can come
  back as the empty list. Here the first page entry lists a link and a second entry has
  no \<^verbatim>\<open>links\<close> member; the \<^verbatim>\<open>KeyError\<close> of the unpacking step is caught, the result
  is the same empty list as for a page that lists no link, and validation reports
  \<open>InvalidPageException\<close>.
\<close>

theorem get_links_failures_counterexample:
  "get_links broken_remote ''P'' = Inr []
   \<and> get_links broken_remote ''P'' = get_links zero_links_remote ''P''
   \<and> validate_page broken_remote ''P'' = Inl (InvalidPageException ''P'')"
  by code_simp

text \<open>
  Claim C5, as the code has it. A failure of the request or of the decoding, an answer
  without \<^verbatim>\<open>query\<close> or without \<^verbatim>\<open>pages\<close>, and an empty \<^verbatim>\<open>pages\<close> object each leave
  \<open>get_links\<close> as an exception, never as a list and never as \<open>InvalidPageException\<close>.
  An answer in which some page entry has no \<^verbatim>\<open>links\<close> member is returned as the empty
  list (\<^verbatim>\<open>except KeyError: return []\<close>), and validation then fails with
  \<open>InvalidPageException\<close>.
\<close>

theorem get_links_failures:
  "(\<forall>e. links_query r LINKS_PER_PAGE page = Inl e \<longrightarrow> get_links r page = Inl (RequestException e))
   \<and> (\<forall>resp. links_query r LINKS_PER_PAGE page = Inr resp \<and> lr_query resp = None \<longrightarrow>
         get_links r page = Inl (KeyError ''query''))
   \<and> (\<forall>resp q. links_query r LINKS_PER_PAGE page = Inr resp \<and> lr_query resp = Some q \<and>
         lq_pages q = None \<longrightarrow> get_links r page = Inl (KeyError ''pages''))
   \<and> (\<forall>resp q. links_query r LINKS_PER_PAGE page = Inr resp \<and> lr_query resp = Some q \<and>
         lq_pages q = Some [] \<longrightarrow> get_links r page = Inl IndexError)
   \<and> (\<forall>resp q results. links_query r LINKS_PER_PAGE page = Inr resp \<and> lr_query resp = Some q \<and>
         lq_pages q = Some results \<and> list_ex (\<lambda>entry. pj_links entry = None) results \<longrightarrow>
         get_links r page = Inr [] \<and> validate_page r page = Inl (InvalidPageException page))
   \<and> (\<forall>t. get_links r page \<noteq> Inl (InvalidPageException t))"
  using get_links_not_invalid [of r page]
  by (auto simp: get_links_def validate_page_def dest!: unpack_links_missing)

text \<open>An undecodable answer is an exception; the answer with an entry that lacks
  \<^verbatim>\<open>links\<close> is the empty list.\<close>

theorem get_links_failures_witness:
  "get_links down_remote ''P'' = Inl (RequestException JSONDecodeError)
   \<and> get_links broken_remote ''P'' = Inr []"
proof -
  have 1: "links_query down_remote LINKS_PER_PAGE ''P'' = Inl JSONDecodeError" by code_simp
  have 2: "links_query broken_remote LINKS_PER_PAGE ''P'' =
      Inr (LinksResponse (Some (LinksQuery (Some
        [PageJson (Some [LinkJson (Some ''A'')]), PageJson None]))))"
    by (simp add: broken_remote_def)
  have 3: "list_ex (\<lambda>entry. pj_links entry = None)
      [PageJson (Some [LinkJson (Some ''A'')]), PageJson None]"
    by simp
  from get_links_failures [of down_remote "''P''"] 1
  have a: "get_links down_remote ''P'' = Inl (RequestException JSONDecodeError)"
    by blast
  from get_links_failures [of broken_remote "''P''"] 2 3
  have b: "get_links broken_remote ''P'' = Inr []"
    by (metis links_query_json.sel links_response.sel)
  from a b show ?thesis by simp
qed

text \<open>
  Claim C6 does not hold as stated: the page has 201 outbound links, more than the limit
  of 200; the service answers with the first 200, one of which is in a namespace, and
  \<open>get_links\<close> returns the 199 that are left after the filter.
\<close>

theorem get_links_limit_counterexample:
  "LINKS_PER_PAGE < length big_page_links
   \<and> get_links big_remote ''P'' = Inr (replicate 199 ''A'')
   \<and> length (replicate 199 ''A'') \<noteq> LINKS_PER_PAGE"
  by (simp add: big_remote_def get_links_corpus big_page_links_def LINKS_PER_PAGE_def
      red_flag_def TITLE_RED_FLAGS_def)

text \<open>
  Claim C6, as the code has it. \<open>get_links\<close> returns the first \<open>LINKS_PER_PAGE\<close>
  outbound links of the page, in order, without those whose title contains a separator
  character. The result has at most \<open>LINKS_PER_PAGE\<close> titles, none contains a separator,
  and for a page with more than \<open>LINKS_PER_PAGE\<close> links it has exactly that many titles
  precisely when none of the first \<open>LINKS_PER_PAGE\<close> links contains a separator.
\<close>

theorem get_links_limit:
  "get_links (corpus_remote out back) t =
     Inr (filter (list_all (\<lambda>c. \<not> red_flag c)) (take LINKS_PER_PAGE (out t)))
   \<and> (\<forall>ts. get_links (corpus_remote out back) t = Inr ts \<longrightarrow>
         length ts \<le> LINKS_PER_PAGE
         \<and> (\<forall>x\<in>set ts. list_all (\<lambda>c. \<not> red_flag c) x)
         \<and> (LINKS_PER_PAGE < length (out t) \<longrightarrow>
              (length ts = LINKS_PER_PAGE) =
              list_all (list_all (\<lambda>c. \<not> red_flag c)) (take LINKS_PER_PAGE (out t))))"
proof -
  let ?ok = "list_all (\<lambda>c. \<not> red_flag c) :: string \<Rightarrow> bool"
  let ?xs = "take LINKS_PER_PAGE (out t)"
  have len: "length (filter ?ok ?xs) \<le> LINKS_PER_PAGE"
    by (rule order_trans [OF length_filter_le]) simp
  have full: "(length (filter ?ok ?xs) = length ?xs) = list_all ?ok ?xs"
    by (metis filter_id_conv length_filter_less less_irrefl list_all_iff)
  have "LINKS_PER_PAGE < length (out t) \<Longrightarrow> length ?xs = LINKS_PER_PAGE" by simp
  with len full show ?thesis by (auto simp: get_links_corpus)
qed

text \<open>A page with 201 plain links gives exactly 200 titles; the page above gives 199.\<close>

theorem get_links_limit_witness:
  "LINKS_PER_PAGE < length (replicate 201 ''A'')
   \<and> get_links (corpus_remote (\<lambda>t. replicate 201 ''A'') (\<lambda>t. [])) ''P'' = Inr (replicate 200 ''A'')
   \<and> get_links big_remote ''P'' = Inr (replicate 199 ''A'')"
  using get_links_limit [of "\<lambda>t. replicate 201 ''A''" "\<lambda>t. []" "''P''"]
    get_links_limit [of "\<lambda>t. big_page_links" "\<lambda>t. []" "''P''"]
  by (simp add: big_remote_def big_page_links_def LINKS_PER_PAGE_def red_flag_def
      TITLE_RED_FLAGS_def)

section \<open>The search (claims C1, C2, C3, C7)\<close>




text \<open>
  Claim C2. If validation of \<open>start\<close> fails with \<open>InvalidPageException\<close>, or validation
  of \<open>start\<close> succeeds and validation of \<open>finish\<close> fails with it, then \<open>find_path\<close>
  returns the message string of that exception for the failing title and leaves the store
  as it was. A string is not a list of titles: the result is neither a path nor the empty
  list.
\<close>

theorem find_path_invalid:
  assumes "validate_page r start = Inl (InvalidPageException start) \<or>
     (validate_page r start = Inr x \<and> validate_page r finish = Inl (InvalidPageException finish))"
  shows "find_path r s start finish =
     (s, Inr (Str (invalid_page_message
        (if validate_page r start = Inl (InvalidPageException start) then start else finish))))
     \<and> (\<forall>p. snd (find_path r s start finish) \<noteq> Inr (List p))"
  using assms by (auto simp: find_path_def time_elapsed_def split: prod.splits)

text \<open>An invalid start, and a valid start with an invalid finish.\<close>

theorem find_path_invalid_witness:
  "find_path ex_remote [row_A] ''N'' ''F'' = ([row_A], Inr (Str ''Can't parse wikipedia page N.''))
   \<and> find_path ex_remote [row_A] ''S'' '':/'' =
       ([row_A], Inr (Str ''Can't parse wikipedia page :/.''))"
proof -
  have 1: "validate_page ex_remote ''N'' = Inl (InvalidPageException ''N'')" by code_simp
  have 2: "validate_page ex_remote ''S'' = Inr (True, [''A'', ''N'', ''B'', ''C''])" by code_simp
  have 3: "validate_page ex_remote '':/'' = Inl (InvalidPageException '':/'')" by code_simp
  have a: "find_path ex_remote [row_A] ''N'' ''F'' =
      ([row_A], Inr (Str (invalid_page_message ''N'')))"
    using find_path_invalid [of ex_remote "''N''" _ "''F''" "[row_A]"] 1 by simp
  have b: "find_path ex_remote [row_A] ''S'' '':/'' =
      ([row_A], Inr (Str (invalid_page_message '':/'')))"
    using find_path_invalid [of ex_remote "''S''" "(True, [''A'', ''N'', ''B'', ''C''])" "'':/''"
        "[row_A]"] 2 3
    by simp
  from a b show ?thesis by (simp add: invalid_page_message_def)
qed




text \<open>
  Claim C7. A candidate that is not cached and that validation rejects with
  \<open>InvalidPageException\<close> is skipped: wherever it stands among the links, the loop ends
  with the same store and the same result as on the list without it. The search is not
  aborted, and what the later candidates yield, a found path included, is what the
  search yields.
\<close>

theorem invalid_candidate_skipped:
  assumes "validate_page r link = Inl (InvalidPageException t)"
  shows "db_lookup s link = None \<Longrightarrow>
     search_links r finish (pre @ link # rest) s path = search_links r finish (pre @ rest) s path"
proof (induction pre arbitrary: s)
  case Nil
  with assms show ?case by (simp add: search_links.simps(2))
next
  case (Cons a pre)
  show ?case
  proof (cases "candidate_links r s a")
    case (Inl e)
    then show ?thesis by (simp add: search_links_step)
  next
    case (Inr o1)
    show ?thesis
    proof (cases o1)
      case None
      with Inr Cons.IH [OF Cons.prems] show ?thesis by (simp add: search_links_step)
    next
      case (Some lks)
      with Inr obtain new where new: "store_after r s a = s @ new"
        "list_all (inserted_row r) new" using store_after_new by blast
      have "db_lookup new link = None"
      proof (rule ccontr)
        assume "db_lookup new link \<noteq> None"
        then obtain p where "db_lookup new link = Some p" by blast
        then have "title p = link" "p \<in> set new" using db_lookup_title by blast+
        with new(2) have "validate_page r link = Inr (True, links p)"
          by (auto simp: list_all_iff inserted_row_def)
        with assms show False by simp
      qed
      with Cons.prems new have "db_lookup (store_after r s a) link = None"
        by (simp add: db_lookup_append)
      from Cons.IH [OF this] Inr Some show ?thesis by (simp add: search_links_step)
    qed
  qed
qed

text \<open>In the small corpus \<^verbatim>\<open>N\<close> is rejected, and the later candidate \<^verbatim>\<open>B\<close> still
  gives the path.\<close>

theorem invalid_candidate_skipped_witness:
  "search_links ex_remote ''F'' ([''A''] @ ''N'' # [''B'', ''C'']) [] [''S'', ''F''] =
     ([row_A, row_B], Inr (True, [''S'', ''B'', ''F'']))"
proof -
  have 1: "validate_page ex_remote ''N'' = Inl (InvalidPageException ''N'')" by code_simp
  have 2: "db_lookup [] ''N'' = None" by code_simp
  have 3: "search_links ex_remote ''F'' ([''A''] @ [''B'', ''C'']) [] [''S'', ''F''] =
     ([row_A, row_B], Inr (True, [''S'', ''B'', ''F'']))" by code_simp
  from invalid_candidate_skipped [OF 1 2, of "''F''" "[''A'']" "[''B'', ''C'']" "[''S'', ''F'']"] 3
  show ?thesis by simp
qed

section \<open>The store (claims C8 and C9)\<close>

text \<open>
  Claim C8. \<open>find_path\<close> only appends to the store, and every row it appends is for a
  title that passed validation with the row's links: the links are not empty and the
  title does not consist of separator characters only. So a store whose rows are all
  valid records stays one, after the call and after the loop from any point of the
  iteration, also when an exception ends the call.
\<close>

theorem store_invariant:
  "(\<exists>new. fst (find_path r s start finish) = s @ new \<and> list_all (inserted_row r) new \<and>
      list_all valid_record new)
   \<and> (list_all valid_record s \<longrightarrow> list_all valid_record (fst (find_path r s start finish)))
   \<and> (list_all valid_record s \<longrightarrow> list_all valid_record (fst (search_links r finish ls s path)))"
proof -
  have rows: "list_all (inserted_row r) new \<Longrightarrow> list_all valid_record new" for new
    by (auto simp: list_all_iff inserted_row_valid)
  from find_path_store [of r s start finish] obtain new where
    new: "fst (find_path r s start finish) = s @ new" "list_all (inserted_row r) new" by blast
  from search_links_store [of r finish ls s path] obtain new2 where
    new2: "fst (search_links r finish ls s path) = s @ new2" "list_all (inserted_row r) new2"
    by blast
  from new new2 rows [OF new(2)] rows [OF new2(2)] show ?thesis by auto
qed

text \<open>The two rows added in the small corpus are valid records.\<close>

theorem store_invariant_witness:
  "fst (find_path ex_remote [] ''S'' ''F'') = [row_A, row_B] \<and> list_all valid_record [row_A, row_B]"
proof -
  have 1: "fst (find_path ex_remote [] ''S'' ''F'') = [row_A, row_B]" by code_simp
  have 2: "list_all valid_record []" by simp
  from store_invariant [of ex_remote "[]" "''S''" "''F''"] 1 2 show ?thesis by simp
qed

text \<open>
  Claim C9. When \<open>find_path\<close> has ended with the store \<open>s'\<close> and the result \<open>res\<close>, the
  same call on \<open>s'\<close> ends with the same store and the same result: it adds no row (the
  intermediate title is found in the store, and that branch inserts nothing) and returns
  the same path.
\<close>

theorem find_path_idempotent:
  assumes "find_path r s start finish = (s', res)"
  shows "find_path r s' start finish = (s', res)"
proof (cases "\<exists>cp sl y. validate_page r start = Inr (cp, sl) \<and> validate_page r finish = Inr y")
  case True
  then obtain cp sl y where v: "validate_page r start = Inr (cp, sl)"
    "validate_page r finish = Inr y"
    by blast
  obtain s1 res1 where run: "search_links r finish sl s [start, finish] = (s1, res1)"
    by (cases "search_links r finish sl s [start, finish]")
  with assms have "s' = s1" by (auto simp: find_path_valid [OF v] split: sum.splits prod.splits)
  with search_links_again [OF run] have "search_links r finish sl s' [start, finish] = (s1, res1)"
    by simp
  with run assms show ?thesis by (simp add: find_path_valid [OF v])
next
  case False
  with assms show ?thesis
    by (auto simp: find_path_def time_elapsed_def split: sum.splits py_error.splits prod.splits)
qed

text \<open>The search of the small corpus, run again on the store it left.\<close>

theorem find_path_idempotent_witness:
  "find_path ex_remote [] ''S'' ''F'' = ([row_A, row_B], Inr (List [''S'', ''B'', ''F'']))
   \<and> find_path ex_remote [row_A, row_B] ''S'' ''F'' =
       ([row_A, row_B], Inr (List [''S'', ''B'', ''F'']))"
proof -
  have 1: "find_path ex_remote [] ''S'' ''F'' = ([row_A, row_B], Inr (List [''S'', ''B'', ''F'']))"
    by code_simp
  from find_path_idempotent [OF 1] 1 show ?thesis by simp
qed

end
